theory Spec2Isabelle
  imports Main
begin

section \<open>The Turing machine simulator of turing_machine.py\<close>

text \<open>
  The class \<^verbatim>\<open>TuringMachine\<close> holds the machine definition (the eight fields that
  \<^verbatim>\<open>__init__\<close> copies from its arguments) together with the run state (tape, head
  position, current state, step counter). It is one record here, as it is one object there;
  a method that mutates the object takes the record and returns the updated one.

  Python strings are \<open>string\<close>: a state name, a tape symbol and a direction are each a
  string, and a tape cell holds a string (one character after \<^verbatim>\<open>load_input\<close>, whatever
  a transition writes afterwards). The sets \<^verbatim>\<open>states\<close>, \<^verbatim>\<open>alphabet\<close>,
  \<^verbatim>\<open>tape_alphabet\<close> and \<^verbatim>\<open>accept_states\<close> are only stored or tested for
  membership, so they are sets. \<^verbatim>\<open>reject_states\<close> is also read through
  \<^verbatim>\<open>list(self.reject_states)[0]\<close>, whose result depends on the iteration order of the
  set: it is the list of its elements in that order, membership being membership in
  the list. The dictionary \<^verbatim>\<open>transitions\<close> is a map. Python integers are \<open>int\<close>.
\<close>

type_synonym state = string
type_synonym symbol = string
type_synonym direction = string
type_synonym transition_table = "(state \<times> symbol) \<rightharpoonup> (state \<times> symbol \<times> direction)"

record TuringMachine =
  states :: "state set"
  alphabet :: "symbol set"
  tape_alphabet :: "symbol set"
  transitions :: transition_table
  initial_state :: state
  accept_states :: "state set"
  reject_states :: "state list"
  blank_symbol :: symbol
  tape :: "symbol list"
  head_position :: int
  current_state :: state
  steps :: int

text \<open>The only exception the engine can raise: the read \<^verbatim>\<open>self.tape[self.head_position]\<close>.\<close>

datatype error = IndexError

text \<open>\<^verbatim>\<open>__init__\<close>: the arguments are stored, the run state starts empty.\<close>

definition init ::
  "state set \<Rightarrow> symbol set \<Rightarrow> symbol set \<Rightarrow> transition_table \<Rightarrow> state \<Rightarrow> state set \<Rightarrow>
   state list \<Rightarrow> symbol \<Rightarrow> TuringMachine" where
  "init sts alph tape_alph table initial accepts rejects blank =
     \<lparr> states = sts, alphabet = alph, tape_alphabet = tape_alph, transitions = table,
       initial_state = initial, accept_states = accepts, reject_states = rejects,
       blank_symbol = blank,
       tape = [], head_position = 0, current_state = initial, steps = 0 \<rparr>"

text \<open>
  \<^verbatim>\<open>load_input\<close>: \<^verbatim>\<open>list(input_string)\<close> is the list of the one-character strings
  of the input; the empty string is falsy and gives a single blank cell.
\<close>

definition load_input :: "TuringMachine \<Rightarrow> string \<Rightarrow> TuringMachine" where
  "load_input tm input_string =
     tm\<lparr> tape := (if input_string \<noteq> [] then map (\<lambda>c. [c]) input_string
                   else [blank_symbol tm]),
         head_position := 0,
         current_state := initial_state tm,
         steps := 0 \<rparr>"

text \<open>
  The first statement of \<^verbatim>\<open>step\<close>, the boundary extension: a negative head inserts a
  blank at the front and becomes 0; otherwise a head at or beyond the length appends one
  blank.
\<close>

definition extend_tape :: "TuringMachine \<Rightarrow> TuringMachine" where
  "extend_tape tm =
     (if head_position tm < 0
      then tm\<lparr> tape := blank_symbol tm # tape tm, head_position := 0 \<rparr>
      else if head_position tm \<ge> int (length (tape tm))
      then tm\<lparr> tape := tape tm @ [blank_symbol tm] \<rparr>
      else tm)"

text \<open>
  Python's list indexing \<^verbatim>\<open>xs[i]\<close>: a negative index counts from the end, and an index
  outside the list raises IndexError. The result is the position that is read or written.
\<close>

definition list_index :: "'a list \<Rightarrow> int \<Rightarrow> error + nat" where
  "list_index xs i =
     (let n = int (length xs);
          j = (if i < 0 then n + i else i)
      in if 0 \<le> j \<and> j < n then Inr (nat j) else Inl IndexError)"

definition move_head :: "direction \<Rightarrow> TuringMachine \<Rightarrow> TuringMachine" where
  "move_head dir tm =
     (if dir = ''R'' then tm\<lparr> head_position := head_position tm + 1 \<rparr>
      else if dir = ''L'' then tm\<lparr> head_position := head_position tm - 1 \<rparr>
      else tm)"

text \<open>
  \<^verbatim>\<open>step\<close>. The result is what the call returns or raises, paired with the object as the
  call leaves it. The read \<^verbatim>\<open>self.tape[self.head_position]\<close> comes before the test of
  the halting sets, and it is the only statement that can raise; the write of a defined
  transition uses the same index. A direction other than R and L leaves the head alone.
\<close>

definition step :: "TuringMachine \<Rightarrow> (error + bool) \<times> TuringMachine" where
  "step tm =
     (let tm1 = extend_tape tm in
      case list_index (tape tm1) (head_position tm1) of
        Inl e \<Rightarrow> (Inl e, tm1)
      | Inr k \<Rightarrow>
          let current_symbol = tape tm1 ! k in
          if current_state tm1 \<in> accept_states tm1 then (Inr False, tm1)
          else if current_state tm1 \<in> set (reject_states tm1) then (Inr False, tm1)
          else
            (case transitions tm1 (current_state tm1, current_symbol) of
               None \<Rightarrow>
                 (Inr False,
                  tm1\<lparr> current_state :=
                         (if reject_states tm1 \<noteq> [] then hd (reject_states tm1)
                          else ''REJECT'') \<rparr>)
             | Some (new_state, write_symbol, dir) \<Rightarrow>
                 let tm2 = tm1\<lparr> tape := (tape tm1)[k := write_symbol],
                                 current_state := new_state \<rparr>;
                     tm3 = move_head dir tm2
                 in (Inr True, tm3\<lparr> steps := steps tm3 + 1 \<rparr>)))"

text \<open>
  \<^verbatim>\<open>get_tape_string\<close>. \<^verbatim>\<open>str.rstrip(chars)\<close> removes from the end every character
  that occurs in \<^verbatim>\<open>chars\<close>.
\<close>

definition rstrip :: "string \<Rightarrow> string \<Rightarrow> string" where
  "rstrip s chars = rev (dropWhile (\<lambda>c. c \<in> set chars) (rev s))"

definition get_tape_string :: "TuringMachine \<Rightarrow> string" where
  "get_tape_string tm =
     (let tape_str = concat (tape tm);
          tape_str = rstrip tape_str (blank_symbol tm)
      in if tape_str = [] then blank_symbol tm else tape_str)"

subsection \<open>What one call of step changes\<close>

lemma extend_tape_fields:
  "states (extend_tape tm) = states tm"
  "alphabet (extend_tape tm) = alphabet tm"
  "tape_alphabet (extend_tape tm) = tape_alphabet tm"
  "transitions (extend_tape tm) = transitions tm"
  "initial_state (extend_tape tm) = initial_state tm"
  "accept_states (extend_tape tm) = accept_states tm"
  "reject_states (extend_tape tm) = reject_states tm"
  "blank_symbol (extend_tape tm) = blank_symbol tm"
  "current_state (extend_tape tm) = current_state tm"
  "steps (extend_tape tm) = steps tm"
  by (simp_all add: extend_tape_def)

lemma move_head_fields:
  "states (move_head d tm) = states tm"
  "alphabet (move_head d tm) = alphabet tm"
  "tape_alphabet (move_head d tm) = tape_alphabet tm"
  "transitions (move_head d tm) = transitions tm"
  "initial_state (move_head d tm) = initial_state tm"
  "accept_states (move_head d tm) = accept_states tm"
  "reject_states (move_head d tm) = reject_states tm"
  "blank_symbol (move_head d tm) = blank_symbol tm"
  "tape (move_head d tm) = tape tm"
  "current_state (move_head d tm) = current_state tm"
  "steps (move_head d tm) = steps tm"
  by (simp_all add: move_head_def)

lemma step_continue_steps:
  assumes "step tm = (Inr True, tm')"
  shows "steps tm' = steps tm + 1"
  using assms
  by (auto simp: step_def Let_def extend_tape_fields move_head_fields
           split: if_splits option.splits sum.splits)

text \<open>
  The \<^verbatim>\<open>while\<close> loop of \<^verbatim>\<open>run\<close>: while the counter is below the budget, call
  \<^verbatim>\<open>step\<close>; leave the loop when it returns False; an exception leaves \<^verbatim>\<open>run\<close>.
  Every iteration that continues has increased the counter, which is the measure.
\<close>

function run_loop :: "int \<Rightarrow> TuringMachine \<Rightarrow> (error + unit) \<times> TuringMachine" where
  "run_loop max_steps tm =
     (if steps tm < max_steps then
        (case step tm of
           (Inl e, tm') \<Rightarrow> (Inl e, tm')
         | (Inr continue, tm') \<Rightarrow>
             if \<not> continue then (Inr (), tm') else run_loop max_steps tm')
      else (Inr (), tm))"
  by pat_completeness auto
termination
proof (relation "measure (\<lambda>(max_steps, tm). nat (max_steps - steps tm))")
  show "wf (measure (\<lambda>(max_steps, tm). nat (max_steps - steps tm)))"
    by simp
next
  fix max_steps :: int and tm :: TuringMachine
    and r :: "error + bool" and tm' :: TuringMachine and continue :: bool
  assume below: "steps tm < max_steps"
    and call: "(r, tm') = step tm"
    and ret: "r = Inr continue"
    and cont: "\<not> \<not> continue"
  from call ret cont have "step tm = (Inr True, tm')"
    by simp
  then have "steps tm' = steps tm + 1"
    by (rule step_continue_steps)
  with below show "((max_steps, tm'), (max_steps, tm))
      \<in> measure (\<lambda>(max_steps, tm). nat (max_steps - steps tm))"
    by simp
qed

declare run_loop.simps [simp del]

text \<open>
  \<^verbatim>\<open>run\<close> without its printing (\<^verbatim>\<open>verbose\<close> only prints): load, loop, then the triple
  (accepted, steps, final tape). The result is paired with the object as the call leaves
  it. The default of \<^verbatim>\<open>max_steps\<close> is 10000.
\<close>

definition run :: "TuringMachine \<Rightarrow> string \<Rightarrow> int \<Rightarrow> (error + bool \<times> int \<times> string) \<times> TuringMachine" where
  "run tm input_string max_steps =
     (case run_loop max_steps (load_input tm input_string) of
        (Inl e, tm') \<Rightarrow> (Inl e, tm')
      | (Inr _, tm') \<Rightarrow>
          let accepted = (current_state tm' \<in> accept_states tm');
              final_tape = get_tape_string tm'
          in (Inr (accepted, steps tm', final_tape), tm'))"

definition default_max_steps :: int where
  "default_max_steps = 10000"

subsection \<open>The two bundled machines\<close>

text \<open>The machine that \<^verbatim>\<open>example_binary_increment\<close> constructs.\<close>

definition binary_increment_transitions :: transition_table where
  "binary_increment_transitions = map_of
     [ ((''start'', ''0''), (''seek_end'', ''0'', ''R'')),
       ((''start'', ''1''), (''seek_end'', ''1'', ''R'')),
       ((''start'', ''_''), (''reject'', ''_'', ''N'')),
       ((''seek_end'', ''0''), (''seek_end'', ''0'', ''R'')),
       ((''seek_end'', ''1''), (''seek_end'', ''1'', ''R'')),
       ((''seek_end'', ''_''), (''carry'', ''_'', ''L'')),
       ((''carry'', ''0''), (''done'', ''1'', ''N'')),
       ((''carry'', ''1''), (''carry'', ''0'', ''L'')),
       ((''carry'', ''_''), (''done'', ''1'', ''N'')) ]"

definition binary_increment_tm :: TuringMachine where
  "binary_increment_tm =
     init {''start'', ''seek_end'', ''carry'', ''done'', ''reject''}
          {''0'', ''1''} {''0'', ''1'', ''_''}
          binary_increment_transitions ''start'' {''done''} [''reject''] ''_''"

text \<open>The machine that \<^verbatim>\<open>example_palindrome_checker\<close> constructs.\<close>

definition palindrome_checker_transitions :: transition_table where
  "palindrome_checker_transitions = map_of
     [ ((''start'', ''0''), (''check_0'', ''X'', ''R'')),
       ((''start'', ''1''), (''check_1'', ''X'', ''R'')),
       ((''start'', ''X''), (''accept'', ''X'', ''N'')),
       ((''start'', ''_''), (''accept'', ''_'', ''N'')),
       ((''check_0'', ''0''), (''check_0'', ''0'', ''R'')),
       ((''check_0'', ''1''), (''check_0'', ''1'', ''R'')),
       ((''check_0'', ''X''), (''check_0'', ''X'', ''R'')),
       ((''check_0'', ''_''), (''move_left'', ''_'', ''L'')),
       ((''check_1'', ''0''), (''check_1'', ''0'', ''R'')),
       ((''check_1'', ''1''), (''check_1'', ''1'', ''R'')),
       ((''check_1'', ''X''), (''check_1'', ''X'', ''R'')),
       ((''check_1'', ''_''), (''move_left'', ''_'', ''L'')),
       ((''move_left'', ''0''), (''move_right'', ''X'', ''L'')),
       ((''move_left'', ''1''), (''move_right'', ''X'', ''L'')),
       ((''move_left'', ''X''), (''move_left'', ''X'', ''L'')),
       ((''move_right'', ''0''), (''move_right'', ''0'', ''L'')),
       ((''move_right'', ''1''), (''move_right'', ''1'', ''L'')),
       ((''move_right'', ''X''), (''move_right'', ''X'', ''L'')),
       ((''move_right'', ''_''), (''start'', ''_'', ''R'')) ]"

definition palindrome_checker_tm :: TuringMachine where
  "palindrome_checker_tm =
     init {''start'', ''check_0'', ''check_1'', ''move_left'', ''move_right'',
           ''accept'', ''reject''}
          {''0'', ''1''} {''0'', ''1'', ''X'', ''_''}
          palindrome_checker_transitions ''start'' {''accept''} [''reject''] ''_''"

subsection \<open>Notions the properties below are stated with\<close>

text \<open>
  The call of \<^verbatim>\<open>step\<close> takes the implicit-rejection path: the read succeeds, the current
  state is in neither halting set, and the key (state, symbol read) is not in the
  dictionary. These are the conditions of the branches of \<^verbatim>\<open>step\<close> that lead there.
\<close>

definition implicit_rejection :: "TuringMachine \<Rightarrow> bool" where
  "implicit_rejection tm =
     (let tm1 = extend_tape tm in
      case list_index (tape tm1) (head_position tm1) of
        Inl e \<Rightarrow> False
      | Inr k \<Rightarrow>
          current_state tm1 \<notin> accept_states tm1 \<and>
          current_state tm1 \<notin> set (reject_states tm1) \<and>
          transitions tm1 (current_state tm1, tape tm1 ! k) = None)"

text \<open>
  A machine that enters its accepting state while moving left off the first cell, and the
  object after loading the input 1 and calling \<^verbatim>\<open>step\<close> once.
\<close>

definition left_exit_tm :: TuringMachine where
  "left_exit_tm =
     init {''start'', ''accept'', ''reject''} {''1''} {''1'', ''_''}
          (map_of [((''start'', ''1''), (''accept'', ''1'', ''L''))])
          ''start'' {''accept''} [''reject''] ''_''"

definition left_exit_halted :: TuringMachine where
  "left_exit_halted = snd (step (load_input left_exit_tm ''1''))"

text \<open>
  A machine with no rejecting state whose state set has a state named REJECT, and no
  transition for the symbol 0.
\<close>

definition sentinel_clash_tm :: TuringMachine where
  "sentinel_clash_tm =
     init {''start'', ''ACCEPT'', ''REJECT''} {''0'', ''1''} {''0'', ''1'', ''_''}
          (map_of [((''start'', ''1''), (''ACCEPT'', ''1'', ''N''))])
          ''start'' {''ACCEPT''} [] ''_''"

text \<open>
  A caller that calls \<^verbatim>\<open>step\<close> a given number of times, whatever each call returns;
  an exception ends the sequence.
\<close>

fun step_calls :: "nat \<Rightarrow> TuringMachine \<Rightarrow> error + TuringMachine" where
  "step_calls 0 tm = Inr tm"
| "step_calls (Suc n) tm =
     (case step tm of
        (Inl e, tm') \<Rightarrow> Inl e
      | (Inr continue, tm') \<Rightarrow> step_calls n tm')"



text \<open>
  The transition dictionary loops between the states \<open>a\<close> and \<open>b\<close>: neither is a halting
  state, the machine starts in one of them, and for every symbol of the tape alphabet
  (which has the blank) each of the two has a transition to the other that writes a symbol
  of the tape alphabet.
\<close>

definition loops_between :: "TuringMachine \<Rightarrow> state \<Rightarrow> state \<Rightarrow> bool" where
  "loops_between tm a b \<longleftrightarrow>
     a \<notin> accept_states tm \<and> a \<notin> set (reject_states tm) \<and>
     b \<notin> accept_states tm \<and> b \<notin> set (reject_states tm) \<and>
     initial_state tm \<in> {a, b} \<and>
     blank_symbol tm \<in> tape_alphabet tm \<and>
     (\<forall>s \<in> tape_alphabet tm.
        (case transitions tm (a, s) of
           None \<Rightarrow> False
         | Some (q, w, d) \<Rightarrow> q = b \<and> w \<in> tape_alphabet tm) \<and>
        (case transitions tm (b, s) of
           None \<Rightarrow> False
         | Some (q, w, d) \<Rightarrow> q = a \<and> w \<in> tape_alphabet tm))"

text \<open>
  A machine that alternates between two states without moving or changing the tape, and a
  machine that reaches its rejecting state with its second transition.
\<close>

definition two_state_loop_tm :: TuringMachine where
  "two_state_loop_tm =
     init {''ping'', ''pong'', ''accept'', ''reject''} {''1''} {''1'', ''_''}
          (map_of [ ((''ping'', ''1''), (''pong'', ''1'', ''N'')),
                    ((''ping'', ''_''), (''pong'', ''_'', ''N'')),
                    ((''pong'', ''1''), (''ping'', ''1'', ''N'')),
                    ((''pong'', ''_''), (''ping'', ''_'', ''N'')) ])
          ''ping'' {''accept''} [''reject''] ''_''"

definition two_step_reject_tm :: TuringMachine where
  "two_step_reject_tm =
     init {''ping'', ''pong'', ''accept'', ''reject''} {''1''} {''1'', ''_''}
          (map_of [ ((''ping'', ''1''), (''pong'', ''1'', ''N'')),
                    ((''pong'', ''1''), (''reject'', ''1'', ''N'')) ])
          ''ping'' {''accept''} [''reject''] ''_''"

text \<open>
  What every iteration of the loop keeps when the dictionary loops between \<open>a\<close> and \<open>b\<close>:
  the current state is one of the two, every tape cell holds a symbol of the tape
  alphabet, and the head is at most one cell beyond the end.
\<close>

definition loop_invariant :: "state \<Rightarrow> state \<Rightarrow> TuringMachine \<Rightarrow> bool" where
  "loop_invariant a b tm \<longleftrightarrow>
     loops_between tm a b \<and>
     current_state tm \<in> {a, b} \<and>
     set (tape tm) \<subseteq> tape_alphabet tm \<and>
     head_position tm \<le> int (length (tape tm))"

subsection \<open>The boundary extension and the read\<close>

lemma extend_tape_head_nonneg: "0 \<le> head_position (extend_tape tm)"
  by (simp add: extend_tape_def)

lemma extend_tape_head_below:
  assumes "head_position tm \<le> int (length (tape tm))"
  shows "head_position (extend_tape tm) < int (length (tape (extend_tape tm)))"
  using assms by (simp add: extend_tape_def)

lemma extend_tape_length: "length (tape (extend_tape tm)) \<le> length (tape tm) + 1"
  by (simp add: extend_tape_def)

lemma extend_tape_explicit:
  assumes "head_position tm \<le> int (length (tape tm))"
  shows "extend_tape tm =
     tm\<lparr> tape := (if head_position tm < 0 then blank_symbol tm # tape tm
                   else if head_position tm = int (length (tape tm))
                   then tape tm @ [blank_symbol tm] else tape tm),
         head_position := (if head_position tm < 0 then 0 else head_position tm) \<rparr>"
  using assms by (simp add: extend_tape_def)

lemma extend_tape_idem:
  assumes "head_position tm \<le> int (length (tape tm))"
  shows "extend_tape (extend_tape tm) = extend_tape tm"
  using assms by (simp add: extend_tape_def)

lemma list_index_in_range:
  assumes "0 \<le> i" and "i < int (length xs)"
  shows "list_index xs i = Inr (nat i)"
  using assms by (simp add: list_index_def)

lemma list_index_beyond:
  assumes "0 \<le> i" and "int (length xs) \<le> i"
  shows "list_index xs i = Inl IndexError"
  using assms by (simp add: list_index_def)

lemma list_index_extend_tape:
  assumes "head_position tm \<le> int (length (tape tm))"
  shows "list_index (tape (extend_tape tm)) (head_position (extend_tape tm))
         = Inr (nat (head_position (extend_tape tm)))"
  by (rule list_index_in_range [OF extend_tape_head_nonneg extend_tape_head_below [OF assms]])

lemma step_halted:
  assumes "current_state tm \<in> accept_states tm \<or> current_state tm \<in> set (reject_states tm)"
    and "head_position tm \<le> int (length (tape tm))"
  shows "step tm = (Inr False, extend_tape tm)"
  using assms(1)
  by (auto simp: step_def Let_def list_index_extend_tape [OF assms(2)] extend_tape_fields)

lemma step_beyond_end:
  assumes "int (length (tape tm)) < head_position tm"
  shows "step tm = (Inl IndexError, tm\<lparr> tape := tape tm @ [blank_symbol tm] \<rparr>)"
proof -
  have e: "extend_tape tm = tm\<lparr> tape := tape tm @ [blank_symbol tm] \<rparr>"
    using assms by (simp add: extend_tape_def)
  have "list_index (tape (extend_tape tm)) (head_position (extend_tape tm)) = Inl IndexError"
    using assms by (intro list_index_beyond) (simp_all add: e)
  then show ?thesis
    by (simp add: step_def Let_def e)
qed

lemma step_implicit:
  assumes "implicit_rejection tm"
  shows "step tm = (Inr False,
           (extend_tape tm)\<lparr> current_state :=
              (if reject_states tm \<noteq> [] then hd (reject_states tm) else ''REJECT'') \<rparr>)"
  using assms
  by (auto simp: implicit_rejection_def step_def Let_def extend_tape_fields split: sum.splits)

lemma implicit_rejection_in_range:
  assumes "implicit_rejection tm"
  shows "head_position tm \<le> int (length (tape tm))"
proof (rule ccontr)
  assume "\<not> head_position tm \<le> int (length (tape tm))"
  then have b: "int (length (tape tm)) < head_position tm" by simp
  then have e: "extend_tape tm = tm\<lparr> tape := tape tm @ [blank_symbol tm] \<rparr>"
    by (simp add: extend_tape_def)
  have "list_index (tape (extend_tape tm)) (head_position (extend_tape tm)) = Inl IndexError"
    using b by (intro list_index_beyond) (simp_all add: e)
  with assms show False
    by (simp add: implicit_rejection_def Let_def)
qed

subsection \<open>Loading\<close>

text \<open>
  C9. For every input string and every prior run state, \<^verbatim>\<open>load_input\<close> sets the tape to
  the list of the input's symbols, or to a single blank cell when the input is empty, the
  head position to 0, the current state to the initial state and the step counter to 0.
\<close>

theorem load_input_resets:
  "tape (load_input tm input_string) =
     (if input_string = [] then [blank_symbol tm] else map (\<lambda>c. [c]) input_string)
   \<and> head_position (load_input tm input_string) = 0
   \<and> current_state (load_input tm input_string) = initial_state tm
   \<and> steps (load_input tm input_string) = 0"
  by (simp add: load_input_def)

subsection \<open>A call of step in a halting state\<close>

text \<open>
  The boundary extension runs before the test of the halting sets. In the machine below the
  accepting state is entered with a move to the left of the first cell; the next call of
  \<^verbatim>\<open>step\<close> returns False, and it has inserted a blank in front of the tape.
\<close>

theorem step_halted_extends_tape_counterexample:
  "current_state left_exit_halted \<in> accept_states left_exit_halted
   \<and> tape left_exit_halted = [''1'']
   \<and> step left_exit_halted
       = (Inr False, left_exit_halted\<lparr> tape := [''_'', ''1''], head_position := 0 \<rparr>)"
  by (simp add: left_exit_halted_def left_exit_tm_def init_def load_input_def step_def
      extend_tape_def list_index_def move_head_def Let_def)

text \<open>
  C1, as the code has it. In a run state whose current state is in the accepting or the
  rejecting set and whose head is at most one cell beyond the end of the tape (which
  \<^verbatim>\<open>load_input\<close> and \<^verbatim>\<open>step\<close> maintain), \<^verbatim>\<open>step\<close> returns False and leaves the
  current state, the step counter and the machine definition as they are. The tape and
  the head change by the boundary extension only: a negative head inserts one blank at the
  front and becomes 0, a head equal to the length appends one blank. A further call
  changes nothing at all.
\<close>

theorem step_halted_absorbing:
  assumes "current_state tm \<in> accept_states tm \<or> current_state tm \<in> set (reject_states tm)"
    and "head_position tm \<le> int (length (tape tm))"
  shows "step tm =
           (Inr False,
            tm\<lparr> tape := (if head_position tm < 0 then blank_symbol tm # tape tm
                          else if head_position tm = int (length (tape tm))
                          then tape tm @ [blank_symbol tm] else tape tm),
                head_position := (if head_position tm < 0 then 0 else head_position tm) \<rparr>)
         \<and> steps (snd (step tm)) = steps tm
         \<and> current_state (snd (step tm)) = current_state tm
         \<and> step (snd (step tm)) = (Inr False, snd (step tm))"
proof -
  have first: "step tm = (Inr False, extend_tape tm)"
    using assms by (rule step_halted)
  have still: "current_state (extend_tape tm) \<in> accept_states (extend_tape tm)
      \<or> current_state (extend_tape tm) \<in> set (reject_states (extend_tape tm))"
    using assms(1) by (simp add: extend_tape_fields)
  have inside: "head_position (extend_tape tm) \<le> int (length (tape (extend_tape tm)))"
    using extend_tape_head_below [OF assms(2)] by simp
  have "step (extend_tape tm) = (Inr False, extend_tape (extend_tape tm))"
    using still inside by (rule step_halted)
  then have again: "step (extend_tape tm) = (Inr False, extend_tape tm)"
    by (simp add: extend_tape_idem [OF assms(2)])
  show ?thesis
    using first again extend_tape_explicit [OF assms(2)]
    by (simp add: extend_tape_fields)
qed

theorem step_halted_absorbing_witness:
  "(current_state left_exit_halted \<in> accept_states left_exit_halted
      \<or> current_state left_exit_halted \<in> set (reject_states left_exit_halted))
   \<and> head_position left_exit_halted \<le> int (length (tape left_exit_halted))
   \<and> fst (step left_exit_halted) = Inr False
   \<and> tape (snd (step left_exit_halted)) = [''_'', ''1'']
   \<and> steps (snd (step left_exit_halted)) = steps left_exit_halted
   \<and> step (snd (step left_exit_halted)) = (Inr False, snd (step left_exit_halted))"
proof -
  have s: "current_state left_exit_halted = ''accept''"
    "accept_states left_exit_halted = {''accept''}"
    "head_position left_exit_halted = - 1"
    "tape left_exit_halted = [''1'']"
    "blank_symbol left_exit_halted = ''_''"
    by (simp_all add: left_exit_halted_def left_exit_tm_def init_def load_input_def step_def
      extend_tape_def list_index_def move_head_def Let_def)
  have h1: "current_state left_exit_halted \<in> accept_states left_exit_halted
      \<or> current_state left_exit_halted \<in> set (reject_states left_exit_halted)"
    by (simp add: s)
  have h2: "head_position left_exit_halted \<le> int (length (tape left_exit_halted))"
    by (simp add: s)
  note t = step_halted_absorbing [OF h1 h2]
  from t have t1: "step left_exit_halted
      = (Inr False, left_exit_halted\<lparr> tape := [''_'', ''1''], head_position := 0 \<rparr>)"
    by (simp add: s)
  from t have t2: "steps (snd (step left_exit_halted)) = steps left_exit_halted"
    by blast
  from t have t4: "step (snd (step left_exit_halted)) = (Inr False, snd (step left_exit_halted))"
    by blast
  have "fst (step left_exit_halted) = Inr False"
    and "tape (snd (step left_exit_halted)) = [''_'', ''1'']"
    by (simp_all add: t1)
  with h1 h2 t2 t4 show ?thesis
    by blast
qed

subsection \<open>Sequences of calls of step\<close>

lemma step_fields:
  "states (snd (step tm)) = states tm"
  "alphabet (snd (step tm)) = alphabet tm"
  "tape_alphabet (snd (step tm)) = tape_alphabet tm"
  "transitions (snd (step tm)) = transitions tm"
  "initial_state (snd (step tm)) = initial_state tm"
  "accept_states (snd (step tm)) = accept_states tm"
  "reject_states (snd (step tm)) = reject_states tm"
  "blank_symbol (snd (step tm)) = blank_symbol tm"
  by (simp_all add: step_def Let_def extend_tape_fields move_head_fields
      split: sum.splits option.splits prod.splits)

lemma step_returns_in_range:
  assumes "head_position tm \<le> int (length (tape tm))"
  shows "\<exists>b. fst (step tm) = Inr b"
  by (auto simp: step_def Let_def list_index_extend_tape [OF assms]
      split: option.splits prod.splits)

lemma step_tape_length:
  "length (tape (snd (step tm))) = length (tape (extend_tape tm))"
  by (simp add: step_def Let_def move_head_fields split: sum.splits option.splits prod.splits)

lemma step_head_bound:
  assumes "head_position tm \<le> int (length (tape tm))"
  shows "head_position (snd (step tm)) \<le> int (length (tape (snd (step tm))))"
proof -
  have below: "head_position (extend_tape tm) < int (length (tape (extend_tape tm)))"
    using assms by (rule extend_tape_head_below)
  have "head_position (snd (step tm)) \<le> head_position (extend_tape tm) + 1"
    by (simp add: step_def Let_def move_head_def split: sum.splits option.splits prod.splits)
  with below show ?thesis
    by (simp add: step_tape_length)
qed

lemma step_calls_invariant:
  assumes "head_position tm \<le> int (length (tape tm))"
  shows "\<exists>tm'. step_calls n tm = Inr tm'
           \<and> head_position tm' \<le> int (length (tape tm'))
           \<and> length (tape tm') \<le> length (tape tm) + n"
  using assms
proof (induction n arbitrary: tm)
  case 0
  then show ?case by simp
next
  case (Suc n)
  obtain b where ret: "fst (step tm) = Inr b"
    using step_returns_in_range [OF Suc.prems] by blast
  have next_ok: "head_position (snd (step tm)) \<le> int (length (tape (snd (step tm))))"
    using Suc.prems by (rule step_head_bound)
  obtain tm' where later: "step_calls n (snd (step tm)) = Inr tm'"
      and inv: "head_position tm' \<le> int (length (tape tm'))"
      and len: "length (tape tm') \<le> length (tape (snd (step tm))) + n"
    using Suc.IH [OF next_ok] by blast
  have unfold: "step_calls (Suc n) tm = step_calls n (snd (step tm))"
    using ret by (cases "step tm") simp
  have "length (tape (snd (step tm))) \<le> length (tape tm) + 1"
    using extend_tape_length [of tm] by (simp add: step_tape_length)
  with len have "length (tape tm') \<le> length (tape tm) + Suc n"
    by simp
  with later inv unfold show ?case
    by simp
qed

lemma load_input_head_bound:
  "head_position (load_input tm input_string) \<le> int (length (tape (load_input tm input_string)))"
  by (simp add: load_input_def)

text \<open>
  C8. For every machine definition and input string, the calls of \<^verbatim>\<open>step\<close> that follow a
  load all return; after any number of them the tape is at most that many cells longer
  than the loaded tape, and in the next call the head is a valid index of the tape right
  after the boundary extension.
\<close>

theorem step_calls_tape_growth:
  "\<exists>tm'. step_calls n (load_input tm input_string) = Inr tm'
     \<and> length (tape tm') \<le> length (tape (load_input tm input_string)) + n
     \<and> 0 \<le> head_position (extend_tape tm')
     \<and> head_position (extend_tape tm') < int (length (tape (extend_tape tm')))"
proof -
  obtain tm' where calls: "step_calls n (load_input tm input_string) = Inr tm'"
      and inv: "head_position tm' \<le> int (length (tape tm'))"
      and len: "length (tape tm') \<le> length (tape (load_input tm input_string)) + n"
    using step_calls_invariant [OF load_input_head_bound] by blast
  from inv have "head_position (extend_tape tm') < int (length (tape (extend_tape tm')))"
    by (rule extend_tape_head_below)
  with calls len extend_tape_head_nonneg show ?thesis
    by blast
qed

subsection \<open>The implicit rejection\<close>

text \<open>
  C2. In a run state whose current state is in neither halting set, when the read after
  the boundary extension succeeds and the key (current state, symbol read) is not in the
  transition dictionary, \<^verbatim>\<open>step\<close> returns False, the current state becomes a member
  of the rejecting set, or the string REJECT when that set is empty, and the step counter
  is not incremented.
\<close>

theorem step_undefined_transition:
  assumes "current_state tm \<notin> accept_states tm"
    and "current_state tm \<notin> set (reject_states tm)"
    and "list_index (tape (extend_tape tm)) (head_position (extend_tape tm)) = Inr k"
    and "transitions tm (current_state tm, tape (extend_tape tm) ! k) = None"
  shows "fst (step tm) = Inr False
         \<and> (reject_states tm \<noteq> [] \<longrightarrow> current_state (snd (step tm)) \<in> set (reject_states tm))
         \<and> (reject_states tm = [] \<longrightarrow> current_state (snd (step tm)) = ''REJECT'')
         \<and> steps (snd (step tm)) = steps tm"
  using assms
  by (simp add: step_def Let_def extend_tape_fields)

theorem step_undefined_transition_witness:
  "current_state (load_input binary_increment_tm ''2'')
      \<notin> accept_states (load_input binary_increment_tm ''2'')
   \<and> current_state (load_input binary_increment_tm ''2'')
      \<notin> set (reject_states (load_input binary_increment_tm ''2''))
   \<and> list_index (tape (extend_tape (load_input binary_increment_tm ''2'')))
        (head_position (extend_tape (load_input binary_increment_tm ''2''))) = Inr 0
   \<and> transitions (load_input binary_increment_tm ''2'')
        (current_state (load_input binary_increment_tm ''2''),
         tape (extend_tape (load_input binary_increment_tm ''2'')) ! 0) = None
   \<and> fst (step (load_input binary_increment_tm ''2'')) = Inr False
   \<and> current_state (snd (step (load_input binary_increment_tm ''2''))) = ''reject''
   \<and> steps (snd (step (load_input binary_increment_tm ''2''))) = 0"
proof -
  have s: "current_state (load_input binary_increment_tm ''2'') = ''start''"
    "accept_states (load_input binary_increment_tm ''2'') = {''done''}"
    "reject_states (load_input binary_increment_tm ''2'') = [''reject'']"
    "extend_tape (load_input binary_increment_tm ''2'') = load_input binary_increment_tm ''2''"
    "tape (load_input binary_increment_tm ''2'') = [''2'']"
    "head_position (load_input binary_increment_tm ''2'') = 0"
    "steps (load_input binary_increment_tm ''2'') = 0"
    "transitions (load_input binary_increment_tm ''2'') = binary_increment_transitions"
    by (simp_all add: binary_increment_tm_def init_def load_input_def extend_tape_def)
  have h1: "current_state (load_input binary_increment_tm ''2'')
      \<notin> accept_states (load_input binary_increment_tm ''2'')"
    by (simp add: s)
  have h2: "current_state (load_input binary_increment_tm ''2'')
      \<notin> set (reject_states (load_input binary_increment_tm ''2''))"
    by (simp add: s)
  have h3: "list_index (tape (extend_tape (load_input binary_increment_tm ''2'')))
        (head_position (extend_tape (load_input binary_increment_tm ''2''))) = Inr 0"
    by (simp add: s list_index_def)
  have h4: "transitions (load_input binary_increment_tm ''2'')
        (current_state (load_input binary_increment_tm ''2''),
         tape (extend_tape (load_input binary_increment_tm ''2'')) ! 0) = None"
    by (simp add: s binary_increment_transitions_def)
  note t = step_undefined_transition [OF h1 h2 h3 h4]
  from t have "fst (step (load_input binary_increment_tm ''2'')) = Inr False"
    and "current_state (snd (step (load_input binary_increment_tm ''2''))) = ''reject''"
    and "steps (snd (step (load_input binary_increment_tm ''2''))) = 0"
    by (simp_all add: s)
  with h1 h2 h3 h4 show ?thesis
    by blast
qed

text \<open>
  C10. When \<^verbatim>\<open>step\<close> takes the implicit-rejection path, the call changes the current
  state and nothing else: the step counter and the machine definition are as before, and
  the tape and the head are as the boundary extension at the start of the call left them
  (one blank inserted at the front and the head reset to 0 when the head was negative, one
  blank appended when the head was at the end).
\<close>

theorem step_implicit_rejection_frame:
  assumes "implicit_rejection tm"
  shows "step tm =
           (Inr False,
            tm\<lparr> tape := (if head_position tm < 0 then blank_symbol tm # tape tm
                          else if head_position tm = int (length (tape tm))
                          then tape tm @ [blank_symbol tm] else tape tm),
                head_position := (if head_position tm < 0 then 0 else head_position tm),
                current_state := (if reject_states tm \<noteq> [] then hd (reject_states tm)
                                  else ''REJECT'') \<rparr>)
         \<and> steps (snd (step tm)) = steps tm"
proof -
  have inside: "head_position tm \<le> int (length (tape tm))"
    using assms by (rule implicit_rejection_in_range)
  have "step tm = (Inr False,
           (extend_tape tm)\<lparr> current_state :=
              (if reject_states tm \<noteq> [] then hd (reject_states tm) else ''REJECT'') \<rparr>)"
    using assms by (rule step_implicit)
  then show ?thesis
    using extend_tape_explicit [OF inside] by simp
qed

theorem step_implicit_rejection_frame_witness:
  "implicit_rejection (load_input binary_increment_tm ''2'')
   \<and> step (load_input binary_increment_tm ''2'')
       = (Inr False, (load_input binary_increment_tm ''2'')\<lparr> current_state := ''reject'' \<rparr>)
   \<and> steps (snd (step (load_input binary_increment_tm ''2'')))
       = steps (load_input binary_increment_tm ''2'')"
proof -
  have s: "current_state (load_input binary_increment_tm ''2'') = ''start''"
    "accept_states (load_input binary_increment_tm ''2'') = {''done''}"
    "reject_states (load_input binary_increment_tm ''2'') = [''reject'']"
    "extend_tape (load_input binary_increment_tm ''2'') = load_input binary_increment_tm ''2''"
    "tape (load_input binary_increment_tm ''2'') = [''2'']"
    "head_position (load_input binary_increment_tm ''2'') = 0"
    "transitions (load_input binary_increment_tm ''2'') = binary_increment_transitions"
    by (simp_all add: binary_increment_tm_def init_def load_input_def extend_tape_def)
  have h: "implicit_rejection (load_input binary_increment_tm ''2'')"
    by (simp add: implicit_rejection_def Let_def s list_index_def binary_increment_transitions_def)
  note t = step_implicit_rejection_frame [OF h]
  from t have "step (load_input binary_increment_tm ''2'')
       = (Inr False, (load_input binary_increment_tm ''2'')\<lparr> current_state := ''reject'' \<rparr>)"
    by (simp add: s)
  moreover from t have "steps (snd (step (load_input binary_increment_tm ''2'')))
       = steps (load_input binary_increment_tm ''2'')"
    by blast
  ultimately show ?thesis
    using h by blast
qed

subsection \<open>The sentinel state\<close>

text \<open>
  The string REJECT is assigned without looking at the state set. A machine whose
  rejecting set is empty and whose state set names a state REJECT ends the implicit
  rejection in a member of its state set.
\<close>

theorem step_sentinel_in_state_set_counterexample:
  "reject_states (load_input sentinel_clash_tm ''0'') = []
   \<and> implicit_rejection (load_input sentinel_clash_tm ''0'')
   \<and> current_state (snd (step (load_input sentinel_clash_tm ''0''))) = ''REJECT''
   \<and> current_state (snd (step (load_input sentinel_clash_tm ''0'')))
       \<in> states (snd (step (load_input sentinel_clash_tm ''0'')))"
  by (simp add: sentinel_clash_tm_def init_def load_input_def implicit_rejection_def
      step_def extend_tape_def list_index_def Let_def)

text \<open>
  C7, as the code has it. When the rejecting set is empty and \<^verbatim>\<open>step\<close> takes the
  implicit-rejection path, the current state becomes the string REJECT. The state set is
  not changed, so the new current state is outside the state set exactly when the machine
  definition has no state of that name.
\<close>

theorem step_sentinel_when_no_reject_states:
  assumes "reject_states tm = []"
    and "implicit_rejection tm"
  shows "current_state (snd (step tm)) = ''REJECT''
         \<and> states (snd (step tm)) = states tm
         \<and> (current_state (snd (step tm)) \<notin> states (snd (step tm))
              \<longleftrightarrow> ''REJECT'' \<notin> states tm)"
proof -
  have "step tm = (Inr False,
           (extend_tape tm)\<lparr> current_state :=
              (if reject_states tm \<noteq> [] then hd (reject_states tm) else ''REJECT'') \<rparr>)"
    using assms(2) by (rule step_implicit)
  with assms(1) show ?thesis
    by (simp add: extend_tape_fields)
qed

theorem step_sentinel_when_no_reject_states_witness:
  "reject_states (load_input sentinel_clash_tm ''0'') = []
   \<and> implicit_rejection (load_input sentinel_clash_tm ''0'')
   \<and> current_state (snd (step (load_input sentinel_clash_tm ''0''))) = ''REJECT''
   \<and> states (snd (step (load_input sentinel_clash_tm ''0'')))
       = {''start'', ''ACCEPT'', ''REJECT''}"
proof -
  have h1: "reject_states (load_input sentinel_clash_tm ''0'') = []"
    by (simp add: sentinel_clash_tm_def init_def load_input_def)
  have h2: "implicit_rejection (load_input sentinel_clash_tm ''0'')"
    by (simp add: sentinel_clash_tm_def init_def load_input_def implicit_rejection_def
        extend_tape_def list_index_def Let_def)
  have st: "states (load_input sentinel_clash_tm ''0'') = {''start'', ''ACCEPT'', ''REJECT''}"
    by (simp add: sentinel_clash_tm_def init_def load_input_def)
  note t = step_sentinel_when_no_reject_states [OF h1 h2]
  from t have "current_state (snd (step (load_input sentinel_clash_tm ''0''))) = ''REJECT''"
    by blast
  moreover from t have "states (snd (step (load_input sentinel_clash_tm ''0'')))
       = {''start'', ''ACCEPT'', ''REJECT''}"
    by (simp add: st)
  ultimately show ?thesis
    using h1 h2 by blast
qed

subsection \<open>Runs of the bundled machines\<close>

text \<open>
  C6. Run with the default step budget, the binary-increment machine accepts the inputs
  1011, 1 and 1111 and leaves the tape renderings 1100, 10 and 10000.
\<close>

theorem binary_increment_runs:
  "fst (run binary_increment_tm ''1011'' default_max_steps) = Inr (True, 8, ''1100'')
   \<and> fst (run binary_increment_tm ''1'' default_max_steps) = Inr (True, 4, ''10'')
   \<and> fst (run binary_increment_tm ''1111'' default_max_steps) = Inr (True, 10, ''10000'')"
  by code_simp

text \<open>
  C3. The palindrome checker marks the first symbol, runs to the right end and marks the
  last unmarked symbol without comparing it with the first. Back at the left end it finds
  the mark it wrote and accepts. The input 1101, which is not a palindrome, is accepted
  after 11 steps.
\<close>

theorem palindrome_checker_accepts_1101:
  "fst (run palindrome_checker_tm ''1101'' default_max_steps) = Inr (True, 11, ''_X10X'')"
  by code_simp

text \<open>
  The input 1001 and the empty input are accepted as well; the one-symbol input 1, a
  palindrome, is rejected.
\<close>

lemma palindrome_checker_other_inputs:
  "fst (run palindrome_checker_tm ''1001'' default_max_steps) = Inr (True, 11, ''_X00X'')"
  "fst (run palindrome_checker_tm [] default_max_steps) = Inr (True, 1, ''_'')"
  "fst (run palindrome_checker_tm ''1'' default_max_steps) = Inr (False, 3, ''_X'')"
  by code_simp+

subsection \<open>The loop of run\<close>

lemma run_loop_exit:
  assumes "\<not> steps tm < max_steps"
  shows "run_loop max_steps tm = (Inr (), tm)"
  using assms by (subst run_loop.simps) simp

lemma run_loop_halted:
  assumes "steps tm < max_steps" and "step tm = (Inr False, tm')"
  shows "run_loop max_steps tm = (Inr (), tm')"
  using assms by (subst run_loop.simps) simp

lemma run_loop_continue:
  assumes "steps tm < max_steps" and "step tm = (Inr True, tm')"
  shows "run_loop max_steps tm = run_loop max_steps tm'"
  using assms by (subst run_loop.simps) simp

lemma run_loop_invariant:
  assumes step_ok: "\<And>t. I t \<Longrightarrow> \<exists>b t'. step t = (Inr b, t') \<and> I t'"
    and start: "I tm"
  shows "\<exists>tm'. run_loop max_steps tm = (Inr (), tm') \<and> I tm'"
  using start
proof (induction "nat (max_steps - steps tm)" arbitrary: tm rule: less_induct)
  case less
  show ?case
  proof (cases "steps tm < max_steps")
    case False
    then have "run_loop max_steps tm = (Inr (), tm)"
      by (rule run_loop_exit)
    with less.prems show ?thesis
      by blast
  next
    case True
    obtain b t' where st: "step tm = (Inr b, t')" and inv: "I t'"
      using step_ok [OF less.prems] by blast
    show ?thesis
    proof (cases b)
      case False
      with True st have "run_loop max_steps tm = (Inr (), t')"
        by (simp add: run_loop_halted)
      with inv show ?thesis
        by blast
    next
      case b: True
      with st have st': "step tm = (Inr True, t')"
        by simp
      then have "steps t' = steps tm + 1"
        by (rule step_continue_steps)
      with True have smaller: "nat (max_steps - steps t') < nat (max_steps - steps tm)"
        by simp
      have "run_loop max_steps tm = run_loop max_steps t'"
        using True st' by (rule run_loop_continue)
      with less.hyps [OF smaller inv] show ?thesis
        by simp
    qed
  qed
qed

lemma run_loop_all_continue:
  assumes step_ok: "\<And>t. I t \<Longrightarrow> \<exists>t'. step t = (Inr True, t') \<and> I t'"
    and start: "I tm"
    and below: "steps tm \<le> max_steps"
  shows "\<exists>tm'. run_loop max_steps tm = (Inr (), tm') \<and> I tm' \<and> steps tm' = max_steps"
  using start below
proof (induction "nat (max_steps - steps tm)" arbitrary: tm rule: less_induct)
  case less
  show ?case
  proof (cases "steps tm < max_steps")
    case False
    then have "run_loop max_steps tm = (Inr (), tm)"
      by (rule run_loop_exit)
    moreover from False less.prems(2) have "steps tm = max_steps"
      by simp
    ultimately show ?thesis
      using less.prems(1) by blast
  next
    case True
    obtain t' where st: "step tm = (Inr True, t')" and inv: "I t'"
      using step_ok [OF less.prems(1)] by blast
    from st have count: "steps t' = steps tm + 1"
      by (rule step_continue_steps)
    with True have smaller: "nat (max_steps - steps t') < nat (max_steps - steps tm)"
      and below': "steps t' \<le> max_steps"
      by simp_all
    have "run_loop max_steps tm = run_loop max_steps t'"
      using True st by (rule run_loop_continue)
    with less.hyps [OF smaller inv below'] show ?thesis
      by simp
  qed
qed

lemma run_loop_from_load:
  "\<exists>tm'. run_loop max_steps (load_input tm input_string) = (Inr (), tm')
     \<and> accept_states tm' = accept_states tm"
proof -
  let ?I = "\<lambda>t. head_position t \<le> int (length (tape t)) \<and> accept_states t = accept_states tm"
  have step_ok: "\<exists>b t'. step t = (Inr b, t') \<and> ?I t'" if "?I t" for t
  proof -
    from that obtain b where "fst (step t) = Inr b"
      using step_returns_in_range by blast
    then have "step t = (Inr b, snd (step t))"
      by (cases "step t") simp
    moreover from that have "?I (snd (step t))"
      by (simp add: step_head_bound step_fields)
    ultimately show ?thesis
      by blast
  qed
  have "?I (load_input tm input_string)"
    by (simp add: load_input_def)
  from run_loop_invariant [of ?I, OF step_ok this] show ?thesis
    by blast
qed

text \<open>
  C4. For every machine definition, input string and step budget, \<^verbatim>\<open>run\<close> returns (it
  raises nothing) the triple of: whether the current state when the loop exits is in the
  accepting set, the step counter, and the tape rendering. When the loop exits because the
  budget is used up, in a state of neither halting set, the first component is False, as
  it is when the loop exits in a rejecting state that is not accepting; the triple has no
  further component that tells the two apart.
\<close>

theorem run_returns_triple:
  "fst (run_loop max_steps (load_input tm input_string)) = Inr ()
   \<and> snd (run tm input_string max_steps) = snd (run_loop max_steps (load_input tm input_string))
   \<and> fst (run tm input_string max_steps)
       = Inr (current_state (snd (run tm input_string max_steps)) \<in> accept_states tm,
              steps (snd (run tm input_string max_steps)),
              get_tape_string (snd (run tm input_string max_steps)))
   \<and> (max_steps \<le> steps (snd (run tm input_string max_steps))
        \<and> current_state (snd (run tm input_string max_steps)) \<notin> accept_states tm
        \<and> current_state (snd (run tm input_string max_steps)) \<notin> set (reject_states tm)
      \<longrightarrow> fst (run tm input_string max_steps)
            = Inr (False, steps (snd (run tm input_string max_steps)),
                   get_tape_string (snd (run tm input_string max_steps))))
   \<and> (current_state (snd (run tm input_string max_steps)) \<in> set (reject_states tm)
        \<and> current_state (snd (run tm input_string max_steps)) \<notin> accept_states tm
      \<longrightarrow> fst (run tm input_string max_steps)
            = Inr (False, steps (snd (run tm input_string max_steps)),
                   get_tape_string (snd (run tm input_string max_steps))))"
proof -
  obtain tm' where loop: "run_loop max_steps (load_input tm input_string) = (Inr (), tm')"
      and acc: "accept_states tm' = accept_states tm"
    using run_loop_from_load by blast
  have "run tm input_string max_steps
      = (Inr (current_state tm' \<in> accept_states tm, steps tm', get_tape_string tm'), tm')"
    by (simp add: run_def loop acc Let_def)
  with loop show ?thesis
    by simp
qed

theorem run_returns_triple_witness:
  "(2 \<le> steps (snd (run two_state_loop_tm ''1'' 2))
    \<and> current_state (snd (run two_state_loop_tm ''1'' 2)) \<notin> accept_states two_state_loop_tm
    \<and> current_state (snd (run two_state_loop_tm ''1'' 2))
        \<notin> set (reject_states two_state_loop_tm))
   \<and> fst (run two_state_loop_tm ''1'' 2) = Inr (False, 2, ''1'')
   \<and> (current_state (snd (run two_step_reject_tm ''1'' default_max_steps))
        \<in> set (reject_states two_step_reject_tm)
      \<and> current_state (snd (run two_step_reject_tm ''1'' default_max_steps))
        \<notin> accept_states two_step_reject_tm)
   \<and> fst (run two_step_reject_tm ''1'' default_max_steps) = Inr (False, 2, ''1'')"
proof -
  have a: "steps (snd (run two_state_loop_tm ''1'' 2)) = 2"
    "current_state (snd (run two_state_loop_tm ''1'' 2)) = ''ping''"
    "get_tape_string (snd (run two_state_loop_tm ''1'' 2)) = ''1''"
    "accept_states two_state_loop_tm = {''accept''}"
    "reject_states two_state_loop_tm = [''reject'']"
    by code_simp+
  have b: "steps (snd (run two_step_reject_tm ''1'' default_max_steps)) = 2"
    "current_state (snd (run two_step_reject_tm ''1'' default_max_steps)) = ''reject''"
    "get_tape_string (snd (run two_step_reject_tm ''1'' default_max_steps)) = ''1''"
    "accept_states two_step_reject_tm = {''accept''}"
    "reject_states two_step_reject_tm = [''reject'']"
    by code_simp+
  have ha: "2 \<le> steps (snd (run two_state_loop_tm ''1'' 2))
    \<and> current_state (snd (run two_state_loop_tm ''1'' 2)) \<notin> accept_states two_state_loop_tm
    \<and> current_state (snd (run two_state_loop_tm ''1'' 2))
        \<notin> set (reject_states two_state_loop_tm)"
    by (simp add: a)
  have hb: "current_state (snd (run two_step_reject_tm ''1'' default_max_steps))
        \<in> set (reject_states two_step_reject_tm)
      \<and> current_state (snd (run two_step_reject_tm ''1'' default_max_steps))
        \<notin> accept_states two_step_reject_tm"
    by (simp add: b)
  from ha run_returns_triple [of 2 two_state_loop_tm "''1''"]
  have ra: "fst (run two_state_loop_tm ''1'' 2) = Inr (False, 2, ''1'')"
    by (simp add: a)
  from hb run_returns_triple [of default_max_steps two_step_reject_tm "''1''"]
  have rb: "fst (run two_step_reject_tm ''1'' default_max_steps) = Inr (False, 2, ''1'')"
    by (simp add: b)
  from ha ra hb rb show ?thesis
    by blast
qed

text \<open>
  The budget can also run out on the very step that enters the accepting state: the
  current state is then accepting when the loop exits, and the run is reported accepted.
\<close>

lemma run_budget_ends_in_accepting_state:
  "fst (run left_exit_tm ''1'' 1) = Inr (True, 1, ''1'')"
  by code_simp

subsection \<open>A dictionary that loops between two states\<close>

lemma extend_tape_cells:
  assumes "blank_symbol tm \<in> G" and "set (tape tm) \<subseteq> G"
  shows "set (tape (extend_tape tm)) \<subseteq> G"
  using assms by (auto simp: extend_tape_def)

lemma step_defined:
  assumes inside: "head_position tm \<le> int (length (tape tm))"
    and "current_state tm \<notin> accept_states tm"
    and "current_state tm \<notin> set (reject_states tm)"
    and "transitions tm (current_state tm,
           tape (extend_tape tm) ! nat (head_position (extend_tape tm))) = Some (q, w, d)"
  shows "step tm =
     (Inr True,
      (move_head d ((extend_tape tm)
         \<lparr> tape := (tape (extend_tape tm))[nat (head_position (extend_tape tm)) := w],
           current_state := q \<rparr>))
      \<lparr> steps := steps tm + 1 \<rparr>)"
  using assms(2-4)
  by (simp add: step_def Let_def list_index_extend_tape [OF inside] extend_tape_fields
      move_head_fields)

lemma loops_between_fields:
  assumes "accept_states t' = accept_states t" and "reject_states t' = reject_states t"
    and "initial_state t' = initial_state t" and "blank_symbol t' = blank_symbol t"
    and "tape_alphabet t' = tape_alphabet t" and "transitions t' = transitions t"
  shows "loops_between t' a b = loops_between t a b"
  unfolding loops_between_def assms by (rule refl)

lemma loops_between_transition:
  assumes "loops_between tm a b" and "s \<in> tape_alphabet tm" and "c \<in> {a, b}"
  shows "\<exists>q w d. transitions tm (c, s) = Some (q, w, d) \<and> q \<in> {a, b} \<and> w \<in> tape_alphabet tm"
proof -
  from assms(1,2) have
    "(case transitions tm (a, s) of None \<Rightarrow> False
       | Some (q, w, d) \<Rightarrow> q = b \<and> w \<in> tape_alphabet tm)"
    and "(case transitions tm (b, s) of None \<Rightarrow> False
       | Some (q, w, d) \<Rightarrow> q = a \<and> w \<in> tape_alphabet tm)"
    by (simp_all add: loops_between_def)
  with assms(3) show ?thesis
    by (auto split: option.splits)
qed

lemma loop_invariant_step:
  assumes "loop_invariant a b tm"
  shows "\<exists>tm'. step tm = (Inr True, tm') \<and> loop_invariant a b tm'"
proof -
  from assms have lb: "loops_between tm a b"
    and cur: "current_state tm \<in> {a, b}"
    and cells: "set (tape tm) \<subseteq> tape_alphabet tm"
    and inside: "head_position tm \<le> int (length (tape tm))"
    by (simp_all add: loop_invariant_def)
  let ?e = "extend_tape tm"
  let ?k = "nat (head_position ?e)"
  from lb have blank: "blank_symbol tm \<in> tape_alphabet tm"
    and nonhalt: "a \<notin> accept_states tm" "a \<notin> set (reject_states tm)"
      "b \<notin> accept_states tm" "b \<notin> set (reject_states tm)"
    by (simp_all add: loops_between_def)
  have ecells: "set (tape ?e) \<subseteq> tape_alphabet tm"
    using blank cells by (rule extend_tape_cells)
  have below: "head_position ?e < int (length (tape ?e))"
    using inside by (rule extend_tape_head_below)
  have nonneg: "0 \<le> head_position ?e"
    by (rule extend_tape_head_nonneg)
  from below nonneg have k: "?k < length (tape ?e)"
    by simp
  then have "tape ?e ! ?k \<in> set (tape ?e)"
    by simp
  with ecells have sym: "tape ?e ! ?k \<in> tape_alphabet tm"
    by blast
  obtain q w d where tr: "transitions tm (current_state tm, tape ?e ! ?k) = Some (q, w, d)"
      and q: "q \<in> {a, b}" and w: "w \<in> tape_alphabet tm"
    using loops_between_transition [OF lb sym cur] by blast
  from cur nonhalt have nh: "current_state tm \<notin> accept_states tm"
      "current_state tm \<notin> set (reject_states tm)"
    by auto
  let ?t = "(move_head d (?e\<lparr> tape := (tape ?e)[?k := w], current_state := q \<rparr>))
      \<lparr> steps := steps tm + 1 \<rparr>"
  have st: "step tm = (Inr True, ?t)"
    using inside nh tr by (rule step_defined)
  have "loops_between ?t a b = loops_between tm a b"
    by (rule loops_between_fields) (simp_all add: move_head_fields extend_tape_fields)
  with lb have lb': "loops_between ?t a b"
    by simp
  have cur': "current_state ?t \<in> {a, b}"
    using q by (simp add: move_head_fields)
  have "set ((tape ?e)[?k := w]) \<subseteq> insert w (set (tape ?e))"
    by (rule set_update_subset_insert)
  with w ecells have cells': "set (tape ?t) \<subseteq> tape_alphabet ?t"
    by (auto simp: move_head_fields extend_tape_fields)
  have "head_position ?t \<le> head_position ?e + 1"
    by (simp add: move_head_def)
  with below have inside': "head_position ?t \<le> int (length (tape ?t))"
    by (simp add: move_head_fields)
  from lb' cur' cells' inside' have "loop_invariant a b ?t"
    by (simp add: loop_invariant_def)
  with st show ?thesis
    by blast
qed

lemma loop_invariant_load:
  assumes "loops_between tm a b"
    and "set (tape (load_input tm input_string)) \<subseteq> tape_alphabet tm"
  shows "loop_invariant a b (load_input tm input_string)"
proof -
  have "loops_between (load_input tm input_string) a b = loops_between tm a b"
    by (rule loops_between_fields) (simp_all add: load_input_def)
  with assms(1) have "loops_between (load_input tm input_string) a b"
    by simp
  moreover from assms(1) have "current_state (load_input tm input_string) \<in> {a, b}"
    by (simp add: loops_between_def load_input_def)
  moreover have "tape_alphabet (load_input tm input_string) = tape_alphabet tm"
    by (simp add: load_input_def)
  ultimately show ?thesis
    using assms(2) load_input_head_bound [of tm input_string]
    by (simp add: loop_invariant_def)
qed

text \<open>
  The loop covers the symbols the dictionary has keys for, not every input. The machine
  below alternates between ping and pong on the symbols 1 and blank; loaded with the
  symbol 2 it finds no key (ping, 2), takes the implicit rejection in the first call of
  \<^verbatim>\<open>step\<close>, and \<^verbatim>\<open>run\<close> returns with the step counter at 0.
\<close>

theorem run_two_state_loop_foreign_symbol_counterexample:
  "loops_between two_state_loop_tm ''ping'' ''pong''
   \<and> fst (run two_state_loop_tm ''2'' 100) = Inr (False, 0, ''2'')"
proof -
  have "loops_between two_state_loop_tm ''ping'' ''pong''"
    by (simp add: loops_between_def two_state_loop_tm_def init_def)
  moreover have "fst (run two_state_loop_tm ''2'' 100) = Inr (False, 0, ''2'')"
    by code_simp
  ultimately show ?thesis
    by blast
qed

text \<open>
  C5, as the code has it. For every machine whose transition dictionary loops between two
  non-halting states and every input whose loaded tape holds only symbols of the tape
  alphabet (the symbols the loop has transitions for), \<^verbatim>\<open>run\<close> with a budget of 100
  steps raises nothing and returns accepted = False and steps = 100.
\<close>

theorem run_two_state_loop:
  assumes "loops_between tm a b"
    and "set (tape (load_input tm input_string)) \<subseteq> tape_alphabet tm"
  shows "fst (run tm input_string 100)
         = Inr (False, 100, get_tape_string (snd (run tm input_string 100)))"
proof -
  have start: "loop_invariant a b (load_input tm input_string)"
    using assms by (rule loop_invariant_load)
  have below: "steps (load_input tm input_string) \<le> 100"
    by (simp add: load_input_def)
  obtain tm' where loop: "run_loop 100 (load_input tm input_string) = (Inr (), tm')"
      and inv: "loop_invariant a b tm'" and count: "steps tm' = 100"
    using run_loop_all_continue [of "loop_invariant a b", OF loop_invariant_step start below]
    by blast
  from inv have "current_state tm' \<notin> accept_states tm'"
    by (auto simp: loop_invariant_def loops_between_def)
  with loop count show ?thesis
    by (simp add: run_def Let_def)
qed

theorem run_two_state_loop_witness:
  "loops_between two_state_loop_tm ''ping'' ''pong''
   \<and> set (tape (load_input two_state_loop_tm ''11'')) \<subseteq> tape_alphabet two_state_loop_tm
   \<and> fst (run two_state_loop_tm ''11'' 100)
       = Inr (False, 100, get_tape_string (snd (run two_state_loop_tm ''11'' 100)))"
proof -
  have h1: "loops_between two_state_loop_tm ''ping'' ''pong''"
    by (simp add: loops_between_def two_state_loop_tm_def init_def)
  have h2: "set (tape (load_input two_state_loop_tm ''11'')) \<subseteq> tape_alphabet two_state_loop_tm"
    by (simp add: two_state_loop_tm_def init_def load_input_def)
  from h1 h2 run_two_state_loop [OF h1 h2] show ?thesis
    by blast
qed

end
